theory Spec2Isabelle
  imports Main "HOL-Library.Word"
begin

section \<open>The diagnostic sink\<close>

text \<open>
  A source location of the AST (\<^verbatim>\<open>langutil::SourceLocation\<close>): start, end and source name.
\<close>

datatype SourceLocation = SourceLocation int int string

text \<open>
  One reported error: the error id (always \<^verbatim>\<open>228_error\<close> in this file), the primary
  location, the \<^verbatim>\<open>SecondarySourceLocation\<close> entries (label and location) and the message.
\<close>

record Error =
  errorId :: nat
  errorLocation :: SourceLocation
  secondary :: "(string \<times> SourceLocation) list"
  message :: string

text \<open>
  \<^verbatim>\<open>m_errorReporter\<close> is a reference to an append-only list of errors. Every function that
  reports takes the reporter and returns it updated.
\<close>

type_synonym ErrorReporter = "Error list"

definition mkTypeError :: "SourceLocation \<Rightarrow> (string \<times> SourceLocation) list \<Rightarrow> string \<Rightarrow> Error" where
  "mkTypeError loc sec msg =
     \<lparr>errorId = 228, errorLocation = loc, secondary = sec, message = msg\<rparr>"

definition typeError :: "SourceLocation \<Rightarrow> (string \<times> SourceLocation) list \<Rightarrow> string \<Rightarrow>
    ErrorReporter \<Rightarrow> ErrorReporter" where
  "typeError loc sec msg er = er @ [mkTypeError loc sec msg]"

text \<open>The diagnostics that a call appended: what the reporter holds beyond its old content.\<close>

definition emitted :: "ErrorReporter \<Rightarrow> ErrorReporter \<Rightarrow> Error list" where
  "emitted er er' = drop (length er) er'"

section \<open>The AST query surface\<close>

datatype Visibility = Default | Private | Internal | Public | External

datatype Category =
  Integer | Bool | FixedBytes | Enum | Array | Struct | Function | Magic | TvmSlice | TvmCell |
  OtherCategory

datatype Kind = TVMInitCodeHash | TVMCode | OtherKind

text \<open>
  Modelled from the spec: the classes of \<^verbatim>\<open>Type\<close> are declared in the AST headers, which
  are not part of the sources at hand; the spec lists what is read of a type (its category
  and, for a struct, the ordered list of its fields). These are the classes that this file
  tells apart, and the variable declarations (parameters, return parameters, struct members,
  state variables) that carry a type. A class fixes its category (\<^verbatim>\<open>category()\<close> is a
  virtual function that each class overrides), so the category is computed from the
  constructor. An array type knows whether it is \<^verbatim>\<open>bytes\<close> or \<^verbatim>\<open>string\<close>; a struct type
  gives the members of its definition; a function type gives its kind; the numeric classes
  give what their constructors take.
\<close>

datatype Type =
    IntegerType nat bool
  | BoolType
  | FixedBytesType nat
  | EnumType nat
  | ArrayType bool
  | StructType "VariableDeclaration list"
  | FunctionType Kind
  | MagicType
  | TvmSliceType
  | TvmCellType
  | OtherType
and VariableDeclaration =
    VariableDeclaration (varLocation: SourceLocation) (varType: Type) (isStateVariable: bool)

fun category :: "Type \<Rightarrow> Category" where
  "category (IntegerType _ _) = Integer"
| "category BoolType = Bool"
| "category (FixedBytesType _) = FixedBytes"
| "category (EnumType _) = Enum"
| "category (ArrayType _) = Array"
| "category (StructType _) = Struct"
| "category (FunctionType _) = Function"
| "category MagicType = Magic"
| "category TvmSliceType = TvmSlice"
| "category TvmCellType = TvmCell"
| "category OtherType = OtherCategory"

text \<open>
  \<^verbatim>\<open>to<ArrayType>(type)\<close> is a dynamic cast: null unless the type is an array type. The
  result is the array type's \<^verbatim>\<open>isByteArrayOrString()\<close>.
\<close>

fun to_ArrayType :: "Type \<Rightarrow> bool option" where
  "to_ArrayType (ArrayType b) = Some b"
| "to_ArrayType _ = None"

text \<open>
  Declarations are compared by address in the source (\<^verbatim>\<open>CallableDeclaration const*\<close>), so a
  declaration is referred to by its address and read through the store of the AST. The
  field \<^verbatim>\<open>baseFunctions\<close> is \<^verbatim>\<open>annotation().baseFunctions\<close>: the addresses of the functions
  that the function overrides directly, in the order in which the loop of line 75 visits
  them.
\<close>

type_synonym ptr = nat

record FunctionDefinition =
  name :: string
  location :: SourceLocation
  visibility :: Visibility
  functionID :: "32 word option"
  isConstructor :: bool
  isReceive :: bool
  isFallback :: bool
  isOnTickTock :: bool
  isOnBounce :: bool
  isResponsible :: bool
  internalMsg :: bool
  externalMsg :: bool
  isInline :: bool
  parameters :: "VariableDeclaration list"
  returnParameters :: "VariableDeclaration list"
  baseFunctions :: "ptr list"

text \<open>
  Modelled from the spec: \<^verbatim>\<open>Declaration::isPublic()\<close> is declared in the AST headers, which
  are not part of the sources at hand. The spec calls it "public/external visibility".
\<close>

definition isPublic :: "FunctionDefinition \<Rightarrow> bool" where
  "isPublic f = (visibility f = Public \<or> visibility f = External)"

section \<open>Per-function rules: \<^verbatim>\<open>visit(FunctionDefinition)\<close>\<close>

definition onCodeUpgrade_signature :: string where
  "onCodeUpgrade_signature =
     CHR 0x0A # ''function onCodeUpgrade(...) (internal|private) { /*...*/ }''"

definition noReturn_message :: string where
  "noReturn_message =
     ''Function mustn't return any parameters. Expected function signature:''
       @ onCodeUpgrade_signature"

definition badVisibility_message :: string where
  "badVisibility_message =
     ''Bad function visibility. Expected function signature:'' @ onCodeUpgrade_signature"

definition check_onCodeUpgrade :: "FunctionDefinition \<Rightarrow> ErrorReporter \<Rightarrow> ErrorReporter" where
  "check_onCodeUpgrade f er0 =
    (let er1 = (case returnParameters f of
                  [] \<Rightarrow> er0
                | p # _ \<Rightarrow> typeError (varLocation p) [] noReturn_message er0);
         er2 = (if isPublic f
                then typeError (location f) [] badVisibility_message er1
                else er1)
     in er2)"

definition afterSignatureCheck_format :: string where
  "afterSignatureCheck_format =
     CHR 0x0A # ''Expected follow format: '' @ CHR 0x22 #
     ''function afterSignatureCheck(TvmSlice restOfMessageBody, TvmCell message) private inline returns (TvmSlice) { /*...*/ }''
     @ [CHR 0x22]"

text \<open>
  The parameter test of the \<^verbatim>\<open>afterSignatureCheck\<close> rule. The source reads \<^verbatim>\<open>at(0)\<close> and
  \<^verbatim>\<open>at(1)\<close> only behind \<^verbatim>\<open>size() != 2 ||\<close>, so the reads are in range.
\<close>

fun badAfterSignatureCheckParameters :: "VariableDeclaration list \<Rightarrow> bool" where
  "badAfterSignatureCheckParameters [p0, p1] =
     (category (varType p0) \<noteq> TvmSlice \<or> category (varType p1) \<noteq> TvmCell)"
| "badAfterSignatureCheckParameters _ = True"

fun badAfterSignatureCheckReturn :: "VariableDeclaration list \<Rightarrow> bool" where
  "badAfterSignatureCheckReturn [r0] = (category (varType r0) \<noteq> TvmSlice)"
| "badAfterSignatureCheckReturn _ = True"

definition check_afterSignatureCheck :: "FunctionDefinition \<Rightarrow> ErrorReporter \<Rightarrow> ErrorReporter" where
  "check_afterSignatureCheck f er0 =
    (let er1 = (if badAfterSignatureCheckParameters (parameters f)
                then typeError (location f) []
                       (''Unexpected function parameters.'' @ afterSignatureCheck_format) er0
                else er0);
         er2 = (if badAfterSignatureCheckReturn (returnParameters f)
                then typeError (location f) []
                       (''Should return TvmSlice.'' @ afterSignatureCheck_format) er1
                else er1);
         er3 = (if visibility f \<noteq> Private
                then typeError (location f) []
                       (''Should be marked as private.'' @ afterSignatureCheck_format) er2
                else er2);
         er4 = (if \<not> isInline f
                then typeError (location f) []
                       (''Should be marked as inline.'' @ afterSignatureCheck_format) er3
                else er3)
     in er4)"

definition zeroFunctionID_message :: string where
  "zeroFunctionID_message =
     ''functionID can't be equal to zero because this value is reserved for receive function.''"

definition inlineVisibility_message :: string where
  "inlineVisibility_message = ''Inline function should have private or internal visibility''"

text \<open>The three dispatch-id rules of lines 200 to 208.\<close>

definition check_functionID :: "FunctionDefinition \<Rightarrow> ErrorReporter \<Rightarrow> ErrorReporter" where
  "check_functionID f er0 =
    (let er1 = (if functionID f = Some 0
                then typeError (location f) [] zeroFunctionID_message er0
                else er0);
         er2 = (if functionID f \<noteq> None \<and> (\<not> isPublic f \<and> name f \<noteq> ''onCodeUpgrade'')
                then typeError (location f) []
                       ''Only public/external functions and function `onCodeUpgrade` can have functionID.'' er1
                else er1);
         er3 = (if functionID f \<noteq> None \<and>
                     (isReceive f \<or> isFallback f \<or> isOnTickTock f \<or> isOnBounce f)
                then typeError (location f) []
                       ''functionID isn't supported for receive, fallback, onBounce and onTickTock functions.'' er2
                else er2)
     in er3)"

definition visit_FunctionDefinition ::
    "FunctionDefinition \<Rightarrow> ErrorReporter \<Rightarrow> bool \<times> ErrorReporter" where
  "visit_FunctionDefinition f er0 =
    (let er1 = check_functionID f er0;
         er2 = (if isInline f \<and> isPublic f
                then typeError (location f) [] inlineVisibility_message er1
                else er1);
         er3 = (if name f = ''onCodeUpgrade'' then check_onCodeUpgrade f er2 else er2);
         er4 = (if name f = ''afterSignatureCheck'' then check_afterSignatureCheck f er3 else er3)
     in (True, er4))"

section \<open>State variables, mapping keys and index ranges\<close>

definition visit_VariableDeclaration ::
    "VariableDeclaration \<Rightarrow> ErrorReporter \<Rightarrow> bool \<times> ErrorReporter" where
  "visit_VariableDeclaration node er0 =
    (let er1 = (if isStateVariable node \<and> category (varType node) = TvmSlice
                then typeError (varLocation node) [] ''This type can't be used for state variables.'' er0
                else er0)
     in (True, er1))"

text \<open>
  \<^verbatim>\<open>toString\<close> of a number: its decimal digits, with a minus sign for a negative one.
\<close>

fun toString :: "nat \<Rightarrow> string" where
  "toString n =
     (if n < 10 then [''0123456789'' ! n]
      else toString (n div 10) @ [''0123456789'' ! (n mod 10)])"

declare toString.simps [simp del]









text \<open>
  \<^verbatim>\<open>visit(IndexRangeAccess)\<close> reads \<^verbatim>\<open>baseArrayType->isByteArrayOrString()\<close> through the
  result of a dynamic cast; reading through a null pointer is a fault, which the model
  returns as a value.
\<close>

datatype fault = NullPointerDereference

record IndexRangeAccess =
  iraLocation :: SourceLocation
  baseExpressionType :: Type

definition indexRange_message :: string where
  "indexRange_message = ''Index range access is available only for bytes.''"

definition visit_IndexRangeAccess ::
    "IndexRangeAccess \<Rightarrow> ErrorReporter \<Rightarrow> fault + bool \<times> ErrorReporter" where
  "visit_IndexRangeAccess indexRangeAccess er0 =
    (let baseType = baseExpressionType indexRangeAccess;
         baseArrayType = to_ArrayType baseType
     in if category baseType \<noteq> Array
        then Inr (True, typeError (iraLocation indexRangeAccess) [] indexRange_message er0)
        else (case baseArrayType of
                None \<Rightarrow> Inl NullPointerDereference
              | Some isByteArrayOrString \<Rightarrow>
                  if \<not> isByteArrayOrString
                  then Inr (True, typeError (iraLocation indexRangeAccess) []
                                    indexRange_message er0)
                  else Inr (True, er0)))"

section \<open>Version-gated features\<close>

text \<open>
  The class \<^verbatim>\<open>TVMVersion\<close> and \<^verbatim>\<open>GlobalParams::g_tvmVersion\<close> are declared outside this
  file. The file names two versions, \<^verbatim>\<open>TVMVersion::ton()\<close> and \<^verbatim>\<open>TVMVersion::gosh()\<close>, and
  compares the configured version with them; the type of versions and these three values
  are parameters.
\<close>

record 'v GlobalParams =
  ton :: 'v
  gosh :: 'v
  g_tvmVersion :: 'v

definition isNotSupportedVM :: string where
  "isNotSupportedVM =
     '' is not supported by the VM version. See '' @ CHR 0x22 # ''--tvm-version'' @
     CHR 0x22 # '' command-line option.''"

definition quoted :: "string \<Rightarrow> string" where
  "quoted s = CHR 0x22 # s @ [CHR 0x22]"

record FunctionCall =
  callLocation :: SourceLocation
  expressionType :: Type
  isAwait :: bool

definition visit_FunctionCall ::
    "'v GlobalParams \<Rightarrow> FunctionCall \<Rightarrow> ErrorReporter \<Rightarrow> bool \<times> ErrorReporter" where
  "visit_FunctionCall gp functionCall er0 =
    (let er1 = (case expressionType functionCall of
                  FunctionType kind \<Rightarrow>
                    (case kind of
                       TVMInitCodeHash \<Rightarrow>
                         if g_tvmVersion gp = ton gp
                         then typeError (callLocation functionCall) []
                                (quoted ''tvm.initCodeHash()'' @ isNotSupportedVM) er0
                         else er0
                     | TVMCode \<Rightarrow>
                         if g_tvmVersion gp = ton gp
                         then typeError (callLocation functionCall) []
                                (quoted ''tvm.code()'' @ isNotSupportedVM) er0
                         else er0
                     | _ \<Rightarrow> er0)
                | _ \<Rightarrow> er0);
         er2 = (if isAwait functionCall \<and> g_tvmVersion gp = ton gp
                then typeError (callLocation functionCall) []
                       (quoted ''*.await'' @ isNotSupportedVM) er1
                else er1)
     in (True, er2))"

record PragmaDirective =
  pragmaLocation :: SourceLocation
  literals :: "string list"

definition visit_PragmaDirective ::
    "'v GlobalParams \<Rightarrow> PragmaDirective \<Rightarrow> ErrorReporter \<Rightarrow> bool \<times> ErrorReporter" where
  "visit_PragmaDirective gp pragma er0 =
    (case literals pragma of
       [] \<Rightarrow> (True, er0)
     | l # _ \<Rightarrow>
         if l = ''copyleft'' \<and> g_tvmVersion gp = ton gp
         then (True, typeError (pragmaLocation pragma) []
                       (quoted ''pragma copyleft ...'' @ isNotSupportedVM) er0)
         else (True, er0))"

text \<open>
  The expression of a member access: the type of its annotation and, when the node is an
  \<^verbatim>\<open>Identifier\<close> (\<^verbatim>\<open>to<Identifier>\<close> is not null), the identifier's name.
\<close>

record Expression =
  expressionAnnotationType :: Type
  identifierName :: "string option"

record MemberAccess =
  memberAccessLocation :: SourceLocation
  memberName :: string
  expression :: Expression

definition visit_MemberAccess ::
    "'v GlobalParams \<Rightarrow> MemberAccess \<Rightarrow> ErrorReporter \<Rightarrow> bool \<times> ErrorReporter" where
  "visit_MemberAccess gp memberAccess er0 =
    (let member = memberName memberAccess;
         expr = expression memberAccess
     in (case category (expressionAnnotationType expr) of
           Magic \<Rightarrow>
             (let er1 = (if member = ''storageFee''
                         then (if g_tvmVersion gp = ton gp
                               then typeError (memberAccessLocation memberAccess) []
                                      (quoted ''tx.storageFee'' @ isNotSupportedVM) er0
                               else er0)
                         else er0);
                  er2 = (case identifierName expr of
                           Some identName \<Rightarrow>
                             if identName = ''gosh'' \<and> g_tvmVersion gp \<noteq> gosh gp
                             then typeError (memberAccessLocation memberAccess) []
                                    (quoted (''gosh.'' @ member) @ isNotSupportedVM) er1
                             else er1
                         | None \<Rightarrow> er1)
              in (True, er2))
         | _ \<Rightarrow> (True, er0)))"

section \<open>Override and overload checks over the hierarchy\<close>

text \<open>
  The store of the AST gives the function definition at an address. A contract is read
  through \<^verbatim>\<open>definedFunctions()\<close>; \<^verbatim>\<open>annotation().linearizedBaseContracts\<close> is the list of
  contracts from the most derived one to the most basic one. \<^verbatim>\<open>getAllBaseFunctions\<close> is
  defined in \<^verbatim>\<open>TVMCommons.cpp\<close>, which is not part of the sources at hand: it is a parameter.
\<close>

type_synonym AST = "ptr \<Rightarrow> FunctionDefinition"

record ContractDefinition =
  definedFunctions :: "ptr list"

text \<open>
  The local variables of \<^verbatim>\<open>checkOverrideAndOverload\<close> and the reporter. The set
  \<^verbatim>\<open>functions\<close> is iterated later, in the order of \<^verbatim>\<open>std::set\<close> (increasing addresses), so
  it is kept as a sorted list without duplicates (\<^verbatim>\<open>functionsSet\<close>); the other two
  containers are only searched.
\<close>

record WalkState =
  errors :: ErrorReporter
  overridedFunctions :: "ptr set"
  functionsSet :: "ptr list"
  funcId2Decl :: "32 word \<rightharpoonup> ptr"

definition sameFunctionID_error :: "AST \<Rightarrow> ptr \<Rightarrow> ptr \<Rightarrow> Error" where
  "sameFunctionID_error ast f f2 =
     mkTypeError (location (ast f))
       [(''Declaration of the function with the same function ID: '', location (ast f2))]
       ''Two functions have the same functionID.''"

text \<open>Lines 50 to 66: the registration of an explicit function id.\<close>

definition registerFunctionID ::
    "AST \<Rightarrow> (ptr \<Rightarrow> ptr set) \<Rightarrow> WalkState \<Rightarrow> ptr \<Rightarrow> WalkState" where
  "registerFunctionID ast getAllBaseFunctions s f =
    (case functionID (ast f) of
       None \<Rightarrow> s
     | Some fid \<Rightarrow>
         (case funcId2Decl s fid of
            Some f2 \<Rightarrow>
              (let bf = getAllBaseFunctions f;
                   bf2 = getAllBaseFunctions f2
               in if f2 \<notin> bf \<and> f \<notin> bf2
                  then s\<lparr>errors := errors s @ [sameFunctionID_error ast f f2]\<rparr>
                  else s)
          | None \<Rightarrow> s\<lparr>funcId2Decl := (funcId2Decl s)(fid \<mapsto> f)\<rparr>))"

definition baseLabel :: string where
  "baseLabel = ''Declaration of the base function: ''"

definition presenceMismatch_message :: string where
  "presenceMismatch_message =
     ''Both override and base functions should have functionID if it is defined for one of them.''"

definition valueMismatch_message :: "32 word \<Rightarrow> string" where
  "valueMismatch_message baseID =
     ''Override function should have functionID = '' @ toString (unat baseID) @ ''.''"

definition responsibleMismatch_message :: string where
  "responsibleMismatch_message =
     ''Both override and base functions should be marked as responsible or not''"

definition msgFlagMismatch_message :: string where
  "msgFlagMismatch_message =
     ''Both override and base functions should be marked as internalMsg or externalMsg.''"

definition functionID_presenceMismatch :: "FunctionDefinition \<Rightarrow> FunctionDefinition \<Rightarrow> bool" where
  "functionID_presenceMismatch f baseFunction =
     ((functionID f = None \<and> functionID baseFunction \<noteq> None) \<or>
      (functionID f \<noteq> None \<and> functionID baseFunction = None))"

text \<open>
  Lines 78 to 116: the checks of one override against one of its base functions. In the
  branch of line 84 both functions have an id, the first test having failed.
\<close>

definition checkOverrideBase :: "AST \<Rightarrow> ptr \<Rightarrow> ptr \<Rightarrow> ErrorReporter \<Rightarrow> ErrorReporter" where
  "checkOverrideBase ast f base er0 =
    (let fd = ast f;
         baseFunction = ast base;
         sec = [(baseLabel, location baseFunction)];
         er1 = (if functionID_presenceMismatch fd baseFunction
                then typeError (location fd) sec presenceMismatch_message er0
                else if functionID fd \<noteq> None \<and> functionID fd \<noteq> functionID baseFunction
                then typeError (location fd) sec
                       (valueMismatch_message (the (functionID baseFunction))) er0
                else er0);
         er2 = (if isResponsible baseFunction \<noteq> isResponsible fd
                then typeError (location fd) sec responsibleMismatch_message er1
                else er1);
         er3 = (if functionID_presenceMismatch fd baseFunction
                then typeError (location fd) sec presenceMismatch_message er2
                else er2);
         er4 = (if (internalMsg fd \<noteq> internalMsg baseFunction) \<or>
                   (externalMsg fd \<noteq> externalMsg baseFunction)
                then typeError (location fd) sec msgFlagMismatch_message er3
                else er3)
     in er4)"

text \<open>Lines 75 to 117: one round of the loop over the base functions of \<^verbatim>\<open>f\<close>.\<close>

definition walkBase :: "AST \<Rightarrow> ptr \<Rightarrow> WalkState \<Rightarrow> ptr \<Rightarrow> WalkState" where
  "walkBase ast f s base =
     s\<lparr>overridedFunctions := insert base (overridedFunctions s),
       errors := checkOverrideBase ast f base (errors s)\<rparr>"

text \<open>Lines 48 to 120: one round of the loop over the functions of a contract.\<close>

definition walkFunction ::
    "AST \<Rightarrow> (ptr \<Rightarrow> ptr set) \<Rightarrow> WalkState \<Rightarrow> ptr \<Rightarrow> WalkState" where
  "walkFunction ast getAllBaseFunctions s0 f =
    (let s1 = registerFunctionID ast getAllBaseFunctions s0 f;
         fd = ast f
     in if isConstructor fd \<or> isReceive fd \<or> isFallback fd \<or> isOnTickTock fd
        then s1
        else
          (let s2 = (if baseFunctions fd \<noteq> []
                     then foldl (walkBase ast f)
                            (s1\<lparr>overridedFunctions := insert f (overridedFunctions s1)\<rparr>)
                            (baseFunctions fd)
                     else s1)
           in s2\<lparr>functionsSet := insort_insert f (functionsSet s2)\<rparr>))"

definition walkContract ::
    "AST \<Rightarrow> (ptr \<Rightarrow> ptr set) \<Rightarrow> WalkState \<Rightarrow> ContractDefinition \<Rightarrow> WalkState" where
  "walkContract ast getAllBaseFunctions s cd =
     foldl (walkFunction ast getAllBaseFunctions) s (definedFunctions cd)"

text \<open>
  Lines 44 to 121: the three containers start empty, and the walk goes over the hierarchy
  from the most basic contract.
\<close>

definition initialState :: "ErrorReporter \<Rightarrow> WalkState" where
  "initialState er =
     \<lparr>errors = er, overridedFunctions = {}, functionsSet = [], funcId2Decl = Map.empty\<rparr>"

definition walk :: "AST \<Rightarrow> (ptr \<Rightarrow> ptr set) \<Rightarrow> ContractDefinition list \<Rightarrow>
    ErrorReporter \<Rightarrow> WalkState" where
  "walk ast getAllBaseFunctions linearizedBaseContracts er =
     foldl (walkContract ast getAllBaseFunctions) (initialState er)
       (rev linearizedBaseContracts)"

definition overloading_message :: string where
  "overloading_message = ''Function overloading is not supported for public functions.''"

definition overload_error :: "AST \<Rightarrow> ptr \<Rightarrow> ptr \<Rightarrow> Error" where
  "overload_error ast f ff =
     mkTypeError (location (ast f))
       [(''Another overloaded function is here:'', location (ast ff))] overloading_message"

text \<open>
  Lines 132 to 150: one round of the inner loop. The state is the reporter and the set
  \<^verbatim>\<open>used\<close>.
\<close>

definition overloadInner :: "AST \<Rightarrow> ptr set \<Rightarrow> ptr \<Rightarrow>
    ErrorReporter \<times> (ptr \<times> ptr) set \<Rightarrow> ptr \<Rightarrow> ErrorReporter \<times> (ptr \<times> ptr) set" where
  "overloadInner ast overrided f st ff =
    (if \<not> isPublic (ast ff) then st
     else if ff \<in> overrided \<or> f = ff then st
     else if name (ast f) = name (ast ff) then
       (if (f, ff) \<notin> snd st
        then (fst st @ [overload_error ast f ff], insert (ff, f) (insert (f, ff) (snd st)))
        else st)
     else st)"

text \<open>Lines 125 to 151: one round of the outer loop.\<close>

definition overloadOuter :: "AST \<Rightarrow> ptr set \<Rightarrow> ptr list \<Rightarrow>
    ErrorReporter \<times> (ptr \<times> ptr) set \<Rightarrow> ptr \<Rightarrow> ErrorReporter \<times> (ptr \<times> ptr) set" where
  "overloadOuter ast overrided fs st f =
    (if \<not> isPublic (ast f) then st
     else if f \<in> overrided then st
     else foldl (overloadInner ast overrided f) st fs)"

definition checkOverload :: "AST \<Rightarrow> ptr set \<Rightarrow> ptr list \<Rightarrow> ErrorReporter \<Rightarrow> ErrorReporter" where
  "checkOverload ast overrided fs er = fst (foldl (overloadOuter ast overrided fs) (er, {}) fs)"

definition checkOverrideAndOverload :: "AST \<Rightarrow> (ptr \<Rightarrow> ptr set) \<Rightarrow> ContractDefinition list \<Rightarrow>
    ErrorReporter \<Rightarrow> ErrorReporter" where
  "checkOverrideAndOverload ast getAllBaseFunctions linearizedBaseContracts er =
     (let s = walk ast getAllBaseFunctions linearizedBaseContracts er
      in checkOverload ast (overridedFunctions s) (functionsSet s) (errors s))"

section \<open>Predicates of the statements and example inputs\<close>

text \<open>The two diagnostics of the \<^verbatim>\<open>onCodeUpgrade\<close> shape check, told by their message.\<close>

definition isHookDiagnostic :: "Error \<Rightarrow> bool" where
  "isHookDiagnostic e =
     (message e =
        ''Function mustn't return any parameters. Expected function signature:'' @
          CHR 0x0A # ''function onCodeUpgrade(...) (internal|private) { /*...*/ }'' \<or>
      message e =
        ''Bad function visibility. Expected function signature:'' @
          CHR 0x0A # ''function onCodeUpgrade(...) (internal|private) { /*...*/ }'')"

text \<open>
  A plain function to build examples from: public, named \<^verbatim>\<open>f\<close>, without parameters,
  return parameters, function id, flags or base functions.
\<close>

definition plainFunction :: FunctionDefinition where
  "plainFunction =
     \<lparr>name = ''f'', location = SourceLocation 10 20 ''a.sol'', visibility = Public,
      functionID = None, isConstructor = False, isReceive = False, isFallback = False,
      isOnTickTock = False, isOnBounce = False, isResponsible = False, internalMsg = False,
      externalMsg = False, isInline = False, parameters = [], returnParameters = [],
      baseFunctions = []\<rparr>"














text \<open>
  The features that depend on the version of the VM. The source keeps no table of the
  versions that support a feature: it compares the configured version with
  \<^verbatim>\<open>TVMVersion::ton()\<close> for the first five and with \<^verbatim>\<open>TVMVersion::gosh()\<close> for the last.
\<close>

datatype Feature =
  InitCodeHashAccessor | CodeAccessor | AwaitExpression | CopyleftPragma | StorageFeeMember |
  GoshNamespace

text \<open>
  The nodes that the version checks visit, and the dispatch of a node to its
  \<^verbatim>\<open>visit\<close> function.
\<close>

datatype Node =
  FunctionCallNode FunctionCall | PragmaDirectiveNode PragmaDirective |
  MemberAccessNode MemberAccess

fun visitNode :: "'v GlobalParams \<Rightarrow> Node \<Rightarrow> ErrorReporter \<Rightarrow> bool \<times> ErrorReporter" where
  "visitNode gp (FunctionCallNode n) er = visit_FunctionCall gp n er"
| "visitNode gp (PragmaDirectiveNode n) er = visit_PragmaDirective gp n er"
| "visitNode gp (MemberAccessNode n) er = visit_MemberAccess gp n er"

fun nodeLocation :: "Node \<Rightarrow> SourceLocation" where
  "nodeLocation (FunctionCallNode n) = callLocation n"
| "nodeLocation (PragmaDirectiveNode n) = pragmaLocation n"
| "nodeLocation (MemberAccessNode n) = memberAccessLocation n"

text \<open>
  The shapes of the claim, in the claim's words: the features that a node refers to, each
  with the name the diagnostic gives it. A call refers to the accessor of the initial code
  hash or of the code when its callee is a function of that kind, and to await when it is an
  await expression; a pragma refers to copyleft when that is its first literal; a member
  access on a magic value refers to the storage fee when that is the member's name, and to
  the gosh namespace when the value is the identifier \<^verbatim>\<open>gosh\<close>, whatever the member. A
  node that matches no shape refers to no feature.
\<close>

fun gatedFeatures :: "Node \<Rightarrow> (Feature \<times> string) list" where
  "gatedFeatures (FunctionCallNode n) =
     (if expressionType n = FunctionType TVMInitCodeHash
      then [(InitCodeHashAccessor, ''tvm.initCodeHash()'')] else []) @
     (if expressionType n = FunctionType TVMCode
      then [(CodeAccessor, ''tvm.code()'')] else []) @
     (if isAwait n then [(AwaitExpression, ''*.await'')] else [])"
| "gatedFeatures (PragmaDirectiveNode n) =
     (if take 1 (literals n) = [''copyleft'']
      then [(CopyleftPragma, ''pragma copyleft ...'')] else [])"
| "gatedFeatures (MemberAccessNode n) =
     (if category (expressionAnnotationType (expression n)) = Magic \<and> memberName n = ''storageFee''
      then [(StorageFeeMember, ''tx.storageFee'')] else []) @
     (if category (expressionAnnotationType (expression n)) = Magic \<and>
         identifierName (expression n) = Some ''gosh''
      then [(GoshNamespace, ''gosh.'' @ memberName n)] else [])"

text \<open>
  The functions of the hierarchy in the order of the walk: contract after contract from the
  most basic one, each contract's functions in the order of their declaration.
\<close>

definition hierarchyFunctions :: "ContractDefinition list \<Rightarrow> ptr list" where
  "hierarchyFunctions linearizedBaseContracts =
     concat (map definedFunctions (rev linearizedBaseContracts))"

text \<open>The diagnostics of the override checks and of the overload check, by their content.\<close>

definition presenceMismatch_error :: "AST \<Rightarrow> ptr \<Rightarrow> ptr \<Rightarrow> Error" where
  "presenceMismatch_error ast f base =
     mkTypeError (location (ast f)) [(baseLabel, location (ast base))] presenceMismatch_message"

definition msgFlagMismatch_error :: "AST \<Rightarrow> ptr \<Rightarrow> ptr \<Rightarrow> Error" where
  "msgFlagMismatch_error ast f base =
     mkTypeError (location (ast f)) [(baseLabel, location (ast base))] msgFlagMismatch_message"

definition isOverloadDiagnosticOf :: "AST \<Rightarrow> ptr \<Rightarrow> ptr \<Rightarrow> Error \<Rightarrow> bool" where
  "isOverloadDiagnosticOf ast f ff e =
     (e = \<lparr>errorId = 228, errorLocation = location (ast f),
            secondary = [(''Another overloaded function is here:'', location (ast ff))],
            message = ''Function overloading is not supported for public functions.''\<rparr> \<or>
      e = \<lparr>errorId = 228, errorLocation = location (ast ff),
            secondary = [(''Another overloaded function is here:'', location (ast f))],
            message = ''Function overloading is not supported for public functions.''\<rparr>)"

text \<open>The roles that line 68 exempts from the override checks and keeps out of \<^verbatim>\<open>functions\<close>.\<close>

definition hasSpecialRole :: "FunctionDefinition \<Rightarrow> bool" where
  "hasSpecialRole fd = (isConstructor fd \<or> isReceive fd \<or> isFallback fd \<or> isOnTickTock fd)"

text \<open>
  The invariant of the two loops of the overload check, for the functions \<open>S\<close> that the
  loops go over and the reporter \<open>er0\<close> they start from: \<^verbatim>\<open>used\<close> is symmetric and holds pairs
  of different functions of \<open>S\<close>, and a pair of functions has got one diagnostic more than it
  had in \<open>er0\<close> if it is in \<^verbatim>\<open>used\<close>, and none more otherwise.
\<close>

definition overloadInvariant :: "AST \<Rightarrow> ptr set \<Rightarrow> ErrorReporter \<Rightarrow>
    ErrorReporter \<times> (ptr \<times> ptr) set \<Rightarrow> bool" where
  "overloadInvariant ast S er0 st =
     ((\<forall>x y. (x, y) \<in> snd st \<longrightarrow> (y, x) \<in> snd st \<and> x \<in> S \<and> y \<in> S \<and> x \<noteq> y) \<and>
      (\<forall>a b. a \<in> S \<and> b \<in> S \<and> a \<noteq> b \<longrightarrow>
         length (filter (isOverloadDiagnosticOf ast a b) (fst st)) =
         length (filter (isOverloadDiagnosticOf ast a b) er0) + (if (a, b) \<in> snd st then 1 else 0)))"

text \<open>
  Example hierarchies: a contract that declares the function at address 1, and a contract
  derived from it that declares the function at address 2.
\<close>

definition baseDecl :: FunctionDefinition where
  "baseDecl = plainFunction\<lparr>name := ''g'', location := SourceLocation 100 120 ''a.sol''\<rparr>"

definition derivedDecl :: FunctionDefinition where
  "derivedDecl = plainFunction\<lparr>name := ''g'', location := SourceLocation 200 220 ''a.sol''\<rparr>"

definition pairAST :: "FunctionDefinition \<Rightarrow> FunctionDefinition \<Rightarrow> AST" where
  "pairAST b d = (\<lambda>_. plainFunction)(1 := b, 2 := d)"

definition pairBaseFunctions :: "ptr \<Rightarrow> ptr set" where
  "pairBaseFunctions = (\<lambda>_. {})(2 := {1})"

definition noBaseFunctions :: "ptr \<Rightarrow> ptr set" where
  "noBaseFunctions = (\<lambda>_. {})"

definition pairContracts :: "ContractDefinition list" where
  "pairContracts = [\<lparr>definedFunctions = [2]\<rparr>, \<lparr>definedFunctions = [1]\<rparr>]"

definition msgFlagAST :: AST where
  "msgFlagAST = pairAST (baseDecl\<lparr>internalMsg := True\<rparr>)
                        (derivedDecl\<lparr>externalMsg := True, baseFunctions := [1]\<rparr>)"

definition presenceAST :: AST where
  "presenceAST = pairAST (baseDecl\<lparr>functionID := Some 5\<rparr>) (derivedDecl\<lparr>baseFunctions := [1]\<rparr>)"

definition sameIdAST :: AST where
  "sameIdAST = pairAST (baseDecl\<lparr>functionID := Some 7\<rparr>)
                       (derivedDecl\<lparr>name := '''', isFallback := True, functionID := Some 7\<rparr>)"

definition overloadAST :: AST where
  "overloadAST = pairAST baseDecl derivedDecl"

definition constructorsAST :: AST where
  "constructorsAST = pairAST (baseDecl\<lparr>name := '''', isConstructor := True\<rparr>)
                             (derivedDecl\<lparr>name := '''', isConstructor := True\<rparr>)"

section \<open>The reporter only grows\<close>

lemma emitted_append [simp]: "emitted er (er @ xs) = xs"
  by (simp add: emitted_def)

lemma message_mkTypeError [simp]: "message (mkTypeError loc sec msg) = msg"
  by (simp add: mkTypeError_def)

lemma check_functionID_append: "check_functionID f er = er @ check_functionID f []"
  by (simp add: check_functionID_def typeError_def Let_def)

lemma check_onCodeUpgrade_append: "check_onCodeUpgrade f er = er @ check_onCodeUpgrade f []"
  by (simp add: check_onCodeUpgrade_def typeError_def Let_def split: list.splits)

lemma check_afterSignatureCheck_append:
  "check_afterSignatureCheck f er = er @ check_afterSignatureCheck f []"
  by (simp add: check_afterSignatureCheck_def typeError_def Let_def)

section \<open>Per-function rules\<close>

text \<open>
  What one visit of a function definition appends: the diagnostics of the function id
  rules, of the inline rule and of the two hooks, in this order.
\<close>

lemma visit_FunctionDefinition_emitted:
  "visit_FunctionDefinition f er = (True, er @ check_functionID f [] @
     (if isInline f \<and> isPublic f then [mkTypeError (location f) [] inlineVisibility_message] else []) @
     (if name f = ''onCodeUpgrade'' then check_onCodeUpgrade f [] else []) @
     (if name f = ''afterSignatureCheck'' then check_afterSignatureCheck f [] else []))"
proof -
  define A where "A = check_functionID f []"
  define B where "B = check_onCodeUpgrade f []"
  define C where "C = check_afterSignatureCheck f []"
  have a: "check_functionID f x = x @ A" for x
    unfolding A_def by (rule check_functionID_append)
  have b: "check_onCodeUpgrade f x = x @ B" for x
    unfolding B_def by (rule check_onCodeUpgrade_append)
  have c: "check_afterSignatureCheck f x = x @ C" for x
    unfolding C_def by (rule check_afterSignatureCheck_append)
  have "visit_FunctionDefinition f er = (True, er @ A @
     (if isInline f \<and> isPublic f then [mkTypeError (location f) [] inlineVisibility_message] else []) @
     (if name f = ''onCodeUpgrade'' then B else []) @
     (if name f = ''afterSignatureCheck'' then C else []))"
    by (simp add: visit_FunctionDefinition_def Let_def typeError_def a b c)
  then show ?thesis
    by (simp only: A_def B_def C_def)
qed

lemma check_functionID_zero:
  "functionID f = Some 0 \<Longrightarrow>
   \<exists>xs. check_functionID f [] = mkTypeError (location f) [] zeroFunctionID_message # xs"
  by (simp add: check_functionID_def typeError_def Let_def)

lemma check_functionID_messages:
  "e \<in> set (check_functionID f []) \<Longrightarrow>
     message e \<noteq> noReturn_message \<and> message e \<noteq> badVisibility_message"
  by (auto simp add: check_functionID_def typeError_def Let_def noReturn_message_def
        badVisibility_message_def zeroFunctionID_message_def split: if_splits)

lemma filter_hook_functionID: "filter isHookDiagnostic (check_functionID f []) = []"
  using check_functionID_messages
  by (auto simp add: filter_empty_conv isHookDiagnostic_def noReturn_message_def
        badVisibility_message_def onCodeUpgrade_signature_def)

lemma check_onCodeUpgrade_eq:
  "check_onCodeUpgrade f [] =
     (case returnParameters f of [] \<Rightarrow> []
      | p # _ \<Rightarrow> [mkTypeError (varLocation p) [] noReturn_message]) @
     (if isPublic f then [mkTypeError (location f) [] badVisibility_message] else [])"
  by (simp add: check_onCodeUpgrade_def typeError_def Let_def split: list.splits)

text \<open>
  C6. A function that declares the function id 0 is reported: the visit returns "continue"
  and the first diagnostic it appends is the one of the zero id, at the function's
  location. Nothing is assumed about the visibility, the name or the role flags.
\<close>

theorem zero_functionID_rejected:
  "functionID f = Some 0 \<Longrightarrow>
   \<exists>rest. visit_FunctionDefinition f er =
     (True, er @
      \<lparr>errorId = 228, errorLocation = location f, secondary = [],
        message = ''functionID can't be equal to zero because this value is reserved for receive function.''\<rparr> # rest)"
proof -
  assume z: "functionID f = Some 0"
  obtain xs where a: "check_functionID f [] = mkTypeError (location f) [] zeroFunctionID_message # xs"
    using check_functionID_zero [OF z] by blast
  show ?thesis
    by (simp add: visit_FunctionDefinition_emitted a mkTypeError_def zeroFunctionID_message_def)
qed

theorem zero_functionID_rejected_witness:
  "functionID (plainFunction\<lparr>visibility := Private, functionID := Some 0, isReceive := True\<rparr>) = Some 0
   \<and> (\<exists>rest. visit_FunctionDefinition
         (plainFunction\<lparr>visibility := Private, functionID := Some 0, isReceive := True\<rparr>) [] =
       (True, [] @
        \<lparr>errorId = 228, errorLocation = SourceLocation 10 20 ''a.sol'', secondary = [],
        message = ''functionID can't be equal to zero because this value is reserved for receive function.''\<rparr> # rest))"
  using zero_functionID_rejected
    [of "plainFunction\<lparr>visibility := Private, functionID := Some 0, isReceive := True\<rparr>" "[]"]
  by (simp add: plainFunction_def)

text \<open>
  C8. For a function named \<^verbatim>\<open>onCodeUpgrade\<close>, the diagnostics of the shape check that the
  visit appends are: one at the first return parameter when the function has return
  parameters, followed by one at the function when it is public. Each of the two is there
  or not whatever the other test says; a function that fails both tests gets exactly two.
\<close>

theorem onCodeUpgrade_checks_independent:
  "name f = ''onCodeUpgrade'' \<Longrightarrow>
     filter isHookDiagnostic (emitted er (snd (visit_FunctionDefinition f er))) =
       (case returnParameters f of [] \<Rightarrow> []
        | p # _ \<Rightarrow>
            [\<lparr>errorId = 228, errorLocation = varLocation p, secondary = [],
        message = ''Function mustn't return any parameters. Expected function signature:'' @
          CHR 0x0A # ''function onCodeUpgrade(...) (internal|private) { /*...*/ }''\<rparr>]) @
       (if isPublic f
        then [\<lparr>errorId = 228, errorLocation = location f, secondary = [],
        message = ''Bad function visibility. Expected function signature:'' @
          CHR 0x0A # ''function onCodeUpgrade(...) (internal|private) { /*...*/ }''\<rparr>]
        else [])
     \<and> (returnParameters f \<noteq> [] \<and> isPublic f \<longrightarrow>
          length (filter isHookDiagnostic (emitted er (snd (visit_FunctionDefinition f er)))) = 2)"
  by (simp add: visit_FunctionDefinition_emitted filter_hook_functionID check_onCodeUpgrade_eq
        isHookDiagnostic_def inlineVisibility_message_def noReturn_message_def
        badVisibility_message_def onCodeUpgrade_signature_def mkTypeError_def
      split: list.splits)

theorem onCodeUpgrade_checks_independent_witness:
  "filter isHookDiagnostic (emitted [] (snd (visit_FunctionDefinition
      (plainFunction\<lparr>name := ''onCodeUpgrade'',
         returnParameters := [VariableDeclaration (SourceLocation 30 40 ''a.sol'') BoolType False]\<rparr>)
      []))) =
     [\<lparr>errorId = 228, errorLocation = SourceLocation 30 40 ''a.sol'', secondary = [],
        message = ''Function mustn't return any parameters. Expected function signature:'' @
          CHR 0x0A # ''function onCodeUpgrade(...) (internal|private) { /*...*/ }''\<rparr>,
      \<lparr>errorId = 228, errorLocation = SourceLocation 10 20 ''a.sol'', secondary = [],
        message = ''Bad function visibility. Expected function signature:'' @
          CHR 0x0A # ''function onCodeUpgrade(...) (internal|private) { /*...*/ }''\<rparr>]
   \<and> length (filter isHookDiagnostic (emitted [] (snd (visit_FunctionDefinition
      (plainFunction\<lparr>name := ''onCodeUpgrade'',
         returnParameters := [VariableDeclaration (SourceLocation 30 40 ''a.sol'') BoolType False]\<rparr>)
      [])))) = 2"
  using onCodeUpgrade_checks_independent
    [of "plainFunction\<lparr>name := ''onCodeUpgrade'',
         returnParameters := [VariableDeclaration (SourceLocation 30 40 ''a.sol'') BoolType False]\<rparr>"
        "[]"]
  by (simp add: plainFunction_def isPublic_def)

text \<open>
  C9. A function that is marked inline and is public (or external) is reported: the visit
  appends the diagnostic that an inline function should have private or internal
  visibility, at the function's location.
\<close>

theorem inline_public_rejected:
  "isInline f \<and> isPublic f \<Longrightarrow>
   \<lparr>errorId = 228, errorLocation = location f, secondary = [],
        message = ''Inline function should have private or internal visibility''\<rparr>
     \<in> set (emitted er (snd (visit_FunctionDefinition f er)))"
  by (simp add: visit_FunctionDefinition_emitted mkTypeError_def inlineVisibility_message_def)

theorem inline_public_rejected_witness:
  "(isInline (plainFunction\<lparr>isInline := True\<rparr>) \<and> isPublic (plainFunction\<lparr>isInline := True\<rparr>))
   \<and> \<lparr>errorId = 228, errorLocation = SourceLocation 10 20 ''a.sol'', secondary = [],
        message = ''Inline function should have private or internal visibility''\<rparr>
       \<in> set (emitted [] (snd (visit_FunctionDefinition (plainFunction\<lparr>isInline := True\<rparr>) [])))"
  using inline_public_rejected [of "plainFunction\<lparr>isInline := True\<rparr>" "[]"]
  by (simp add: plainFunction_def isPublic_def)

section \<open>Struct keys of mappings\<close>














section \<open>Index range access\<close>

text \<open>
  C10. The visit of an index range access never faults and always returns "continue"; when
  the category of the base type is not \<^verbatim>\<open>Array\<close> it appends the diagnostic "only for bytes"
  (the result of the dynamic cast, null there, is not read).
\<close>

theorem indexRangeAccess_total:
  "(\<exists>er'. visit_IndexRangeAccess ira er = Inr (True, er')) \<and>
   (category (baseExpressionType ira) \<noteq> Array \<longrightarrow>
      to_ArrayType (baseExpressionType ira) = None \<and>
      visit_IndexRangeAccess ira er =
        Inr (True, er @
          [\<lparr>errorId = 228, errorLocation = iraLocation ira, secondary = [],
        message = ''Index range access is available only for bytes.''\<rparr>]))"
  by (cases "baseExpressionType ira")
     (simp_all add: visit_IndexRangeAccess_def Let_def typeError_def mkTypeError_def
        indexRange_message_def)

theorem indexRangeAccess_total_witness:
  "(\<exists>er'. visit_IndexRangeAccess
       \<lparr>iraLocation = SourceLocation 1 5 ''a.sol'', baseExpressionType = IntegerType 256 False\<rparr> []
       = Inr (True, er')) \<and>
   category (IntegerType 256 False) \<noteq> Array \<and>
   to_ArrayType (IntegerType 256 False) = None \<and>
   visit_IndexRangeAccess
       \<lparr>iraLocation = SourceLocation 1 5 ''a.sol'', baseExpressionType = IntegerType 256 False\<rparr> []
     = Inr (True,
         [\<lparr>errorId = 228, errorLocation = SourceLocation 1 5 ''a.sol'', secondary = [],
        message = ''Index range access is available only for bytes.''\<rparr>])"
  using indexRangeAccess_total
    [of "\<lparr>iraLocation = SourceLocation 1 5 ''a.sol'', baseExpressionType = IntegerType 256 False\<rparr>" "[]"]
  by simp

section \<open>Version-gated features\<close>

text \<open>
  C7. The visit of a call, a pragma or a member access returns "continue" and appends, for
  each feature the node refers to and in their order, one diagnostic at the node if and only
  if the configured version is not among the versions that support the feature: every
  version but \<^verbatim>\<open>ton()\<close> for the accessors of the initial code hash and of the code, for
  await, for the copyleft pragma and for the storage fee, and the version \<^verbatim>\<open>gosh()\<close> alone
  for the gosh namespace. The message is the feature's name in double quotes followed by
  the text that names the command-line option \<^verbatim>\<open>--tvm-version\<close>. The visit appends
  nothing else, so a node that matches none of the shapes gets no diagnostic.
\<close>

theorem version_gates:
  "visitNode gp n er =
     (True, er @
        map (\<lambda>x. \<lparr>errorId = 228, errorLocation = nodeLocation n, secondary = [],
                    message = CHR 0x22 # snd x @ CHR 0x22 #
                      '' is not supported by the VM version. See '' @ CHR 0x22 #
                      ''--tvm-version'' @ CHR 0x22 # '' command-line option.''\<rparr>)
          (filter (\<lambda>x. g_tvmVersion gp \<notin>
                          (case fst x of GoshNamespace \<Rightarrow> {gosh gp} | _ \<Rightarrow> - {ton gp}))
             (gatedFeatures n)))"
proof (cases n)
  case (FunctionCallNode fc)
  then show ?thesis
    by (simp add: visit_FunctionCall_def quoted_def isNotSupportedVM_def mkTypeError_def
          typeError_def Let_def split: Type.splits Kind.splits)
next
  case (PragmaDirectiveNode p)
  then show ?thesis
    by (simp add: visit_PragmaDirective_def quoted_def isNotSupportedVM_def mkTypeError_def
          typeError_def split: list.splits)
next
  case (MemberAccessNode ma)
  then show ?thesis
    by (simp add: visit_MemberAccess_def quoted_def isNotSupportedVM_def mkTypeError_def
          typeError_def Let_def split: Category.splits option.splits)
qed

section \<open>The hierarchy walk\<close>

text \<open>
  The override checks and the walk only append to the reporter, and none of the diagnostics
  they append has the message of the overload check.
\<close>

lemma checkOverrideBase_append:
  "checkOverrideBase ast f base er = er @ checkOverrideBase ast f base []"
  by (simp add: checkOverrideBase_def typeError_def Let_def)

lemma checkOverrideBase_messages:
  "e \<in> set (checkOverrideBase ast f base []) \<Longrightarrow> message e \<noteq> overloading_message"
  by (auto simp add: checkOverrideBase_def typeError_def Let_def overloading_message_def
        presenceMismatch_message_def valueMismatch_message_def responsibleMismatch_message_def
        msgFlagMismatch_message_def split: if_splits)

lemma foldl_contracts:
  "foldl (walkContract ast g) s cds =
     foldl (walkFunction ast g) s (concat (map definedFunctions cds))"
  by (induction cds arbitrary: s) (simp_all add: walkContract_def)

lemma walk_hierarchyFunctions:
  "walk ast g lin er = foldl (walkFunction ast g) (initialState er) (hierarchyFunctions lin)"
  by (simp add: walk_def hierarchyFunctions_def foldl_contracts)

lemma foldl_walkBase_funcId2Decl:
  "funcId2Decl (foldl (walkBase ast f) s bs) = funcId2Decl s"
  by (induction bs arbitrary: s) (simp_all add: walkBase_def)

lemma foldl_walkBase_errors:
  "\<exists>xs. errors (foldl (walkBase ast f) s bs) = errors s @ xs \<and>
        (\<forall>e \<in> set xs. message e \<noteq> overloading_message)"
proof (induction bs arbitrary: s)
  case Nil
  then show ?case by simp
next
  case (Cons b bs)
  obtain xs where "errors (foldl (walkBase ast f) (walkBase ast f s b) bs)
      = errors (walkBase ast f s b) @ xs" "\<forall>e \<in> set xs. message e \<noteq> overloading_message"
    using Cons.IH by blast
  moreover have "errors (walkBase ast f s b) = errors s @ checkOverrideBase ast f b []"
    using checkOverrideBase_append [of ast f b "errors s"] by (simp add: walkBase_def)
  ultimately show ?case
    using checkOverrideBase_messages [of _ ast f b] by auto
qed

lemma walkFunction_funcId2Decl:
  "funcId2Decl (walkFunction ast g s f) = funcId2Decl (registerFunctionID ast g s f)"
  by (simp add: walkFunction_def Let_def foldl_walkBase_funcId2Decl)

lemma walkFunction_errors:
  "\<exists>xs. errors (walkFunction ast g s f) = errors (registerFunctionID ast g s f) @ xs \<and>
        (\<forall>e \<in> set xs. message e \<noteq> overloading_message)"
proof -
  obtain xs where "errors (foldl (walkBase ast f)
      ((registerFunctionID ast g s f)\<lparr>overridedFunctions :=
          insert f (overridedFunctions (registerFunctionID ast g s f))\<rparr>)
      (baseFunctions (ast f))) = errors (registerFunctionID ast g s f) @ xs"
      "\<forall>e \<in> set xs. message e \<noteq> overloading_message"
    using foldl_walkBase_errors
      [of ast f "(registerFunctionID ast g s f)\<lparr>overridedFunctions :=
          insert f (overridedFunctions (registerFunctionID ast g s f))\<rparr>" "baseFunctions (ast f)"]
    by auto
  then show ?thesis
    by (simp add: walkFunction_def Let_def)
qed

lemma registerFunctionID_errors:
  "\<exists>xs. errors (registerFunctionID ast g s f) = errors s @ xs \<and>
        (\<forall>e \<in> set xs. message e \<noteq> overloading_message)"
  by (simp add: registerFunctionID_def Let_def sameFunctionID_error_def overloading_message_def
        split: option.splits)

lemma registerFunctionID_keeps:
  "funcId2Decl s fid = Some x \<Longrightarrow> funcId2Decl (registerFunctionID ast g s f) fid = Some x"
  by (auto simp add: registerFunctionID_def Let_def split: option.splits)

lemma walkFunction_appends:
  "\<exists>xs. errors (walkFunction ast g s f) = errors s @ xs \<and>
        (\<forall>e \<in> set xs. message e \<noteq> overloading_message)"
proof -
  obtain xs where x: "errors (walkFunction ast g s f) = errors (registerFunctionID ast g s f) @ xs"
      "\<forall>e \<in> set xs. message e \<noteq> overloading_message"
    using walkFunction_errors by blast
  obtain ys where y: "errors (registerFunctionID ast g s f) = errors s @ ys"
      "\<forall>e \<in> set ys. message e \<noteq> overloading_message"
    using registerFunctionID_errors by blast
  have "errors (walkFunction ast g s f) = errors s @ (ys @ xs)"
    using x(1) y(1) by simp
  moreover have "\<forall>e \<in> set (ys @ xs). message e \<noteq> overloading_message"
    using x(2) y(2) by auto
  ultimately show ?thesis by blast
qed

lemma foldl_walkFunction_appends:
  "\<exists>xs. errors (foldl (walkFunction ast g) s fs) = errors s @ xs \<and>
        (\<forall>e \<in> set xs. message e \<noteq> overloading_message)"
proof (induction fs arbitrary: s)
  case Nil
  then show ?case by simp
next
  case (Cons f fs)
  obtain xs where x: "errors (foldl (walkFunction ast g) (walkFunction ast g s f) fs)
      = errors (walkFunction ast g s f) @ xs" "\<forall>e \<in> set xs. message e \<noteq> overloading_message"
    using Cons.IH by blast
  obtain ys where y: "errors (walkFunction ast g s f) = errors s @ ys"
      "\<forall>e \<in> set ys. message e \<noteq> overloading_message"
    using walkFunction_appends by blast
  have "errors (foldl (walkFunction ast g) s (f # fs)) = errors s @ (ys @ xs)"
    using x(1) y(1) by simp
  moreover have "\<forall>e \<in> set (ys @ xs). message e \<noteq> overloading_message"
    using x(2) y(2) by auto
  ultimately show ?case by blast
qed

lemma foldl_walkFunction_keeps:
  "funcId2Decl s fid = Some x \<Longrightarrow>
     funcId2Decl (foldl (walkFunction ast g) s fs) fid = Some x"
  by (induction fs arbitrary: s)
     (simp_all add: walkFunction_funcId2Decl registerFunctionID_keeps)

lemma overloadInner_appends:
  "\<exists>xs. fst (overloadInner ast ov f st ff) = fst st @ xs"
  by (simp add: overloadInner_def)

lemma foldl_overloadInner_appends:
  "\<exists>xs. fst (foldl (overloadInner ast ov f) st fs) = fst st @ xs"
proof (induction fs arbitrary: st)
  case Nil
  then show ?case by simp
next
  case (Cons a fs)
  obtain xs where "fst (foldl (overloadInner ast ov f) (overloadInner ast ov f st a) fs)
      = fst (overloadInner ast ov f st a) @ xs"
    using Cons.IH by blast
  moreover obtain ys where "fst (overloadInner ast ov f st a) = fst st @ ys"
    using overloadInner_appends by blast
  ultimately show ?case by simp
qed

lemma overloadOuter_appends:
  "\<exists>xs. fst (overloadOuter ast ov fs st f) = fst st @ xs"
  using foldl_overloadInner_appends by (simp add: overloadOuter_def)

lemma foldl_overloadOuter_appends:
  "\<exists>xs. fst (foldl (overloadOuter ast ov gs) st fs) = fst st @ xs"
proof (induction fs arbitrary: st)
  case Nil
  then show ?case by simp
next
  case (Cons a fs)
  obtain xs where "fst (foldl (overloadOuter ast ov gs) (overloadOuter ast ov gs st a) fs)
      = fst (overloadOuter ast ov gs st a) @ xs"
    using Cons.IH by blast
  moreover obtain ys where "fst (overloadOuter ast ov gs st a) = fst st @ ys"
    using overloadOuter_appends by blast
  ultimately show ?case by simp
qed

lemma checkOverload_appends: "\<exists>xs. checkOverload ast ov fs er = er @ xs"
  using foldl_overloadOuter_appends [of ast ov fs "(er, {})" fs] by (simp add: checkOverload_def)

lemma walk_appends:
  "\<exists>xs. errors (walk ast g lin er) = er @ xs \<and>
        (\<forall>e \<in> set xs. message e \<noteq> overloading_message)"
  using foldl_walkFunction_appends [of ast g "initialState er" "hierarchyFunctions lin"]
  by (simp add: walk_hierarchyFunctions initialState_def)

lemma checkOverrideAndOverload_appends:
  "\<exists>xs ys. errors (walk ast g lin er) = er @ xs \<and>
      (\<forall>e \<in> set xs. message e \<noteq> overloading_message) \<and>
      checkOverload ast (overridedFunctions (walk ast g lin er))
        (functionsSet (walk ast g lin er)) (er @ xs) = er @ xs @ ys \<and>
      checkOverrideAndOverload ast g lin er = er @ xs @ ys"
proof -
  obtain xs where x: "errors (walk ast g lin er) = er @ xs"
      "\<forall>e \<in> set xs. message e \<noteq> overloading_message"
    using walk_appends by blast
  obtain ys where "checkOverload ast (overridedFunctions (walk ast g lin er))
      (functionsSet (walk ast g lin er)) (errors (walk ast g lin er))
      = errors (walk ast g lin er) @ ys"
    using checkOverload_appends by blast
  then show ?thesis
    using x by (simp add: checkOverrideAndOverload_def Let_def)
qed

text \<open>
  The registration of a function id, followed through the walk: what the round of \<open>f\<close>
  appends stays in the reporter, and what it registers stays registered.
\<close>

lemma functionID_registration_walk:
  assumes "hierarchyFunctions lin = pre @ f # post"
    and "functionID (ast f) = Some fid"
  shows "(\<forall>f2. funcId2Decl (foldl (walkFunction ast g) (initialState er) pre) fid = Some f2 \<and>
            f2 \<noteq> f \<and> f2 \<notin> g f \<and> f \<notin> g f2 \<longrightarrow>
            sameFunctionID_error ast f f2
              \<in> set (emitted er (checkOverrideAndOverload ast g lin er)))
       \<and> (funcId2Decl (foldl (walkFunction ast g) (initialState er) pre) fid = None \<longrightarrow>
            funcId2Decl (walk ast g lin er) fid = Some f)"
proof -
  define s where "s = foldl (walkFunction ast g) (initialState er) pre"
  define s' where "s' = walkFunction ast g s f"
  have w: "walk ast g lin er = foldl (walkFunction ast g) s' post"
    by (simp add: walk_hierarchyFunctions assms(1) s_def s'_def)
  obtain e0 where e0: "errors s = er @ e0"
    using foldl_walkFunction_appends [of ast g "initialState er" pre]
    by (auto simp add: s_def initialState_def)
  obtain e1 where e1: "errors s' = errors (registerFunctionID ast g s f) @ e1"
    unfolding s'_def using walkFunction_errors by blast
  obtain e2 where e2: "errors (walk ast g lin er) = errors s' @ e2"
    unfolding w using foldl_walkFunction_appends by blast
  obtain xs ys where e3: "errors (walk ast g lin er) = er @ xs"
      "checkOverrideAndOverload ast g lin er = er @ xs @ ys"
    using checkOverrideAndOverload_appends [of ast g lin er] by blast
  have a: "sameFunctionID_error ast f f2 \<in> set (emitted er (checkOverrideAndOverload ast g lin er))"
    if "funcId2Decl s fid = Some f2" "f2 \<notin> g f" "f \<notin> g f2" for f2
  proof -
    have "errors (registerFunctionID ast g s f) = errors s @ [sameFunctionID_error ast f f2]"
      using that assms(2) by (simp add: registerFunctionID_def Let_def)
    then have "er @ xs = er @ e0 @ [sameFunctionID_error ast f f2] @ e1 @ e2"
      using e0 e1 e2 e3(1) by simp
    then have "xs = e0 @ [sameFunctionID_error ast f f2] @ e1 @ e2"
      by simp
    then show ?thesis
      by (simp add: e3(2))
  qed
  have b: "funcId2Decl (walk ast g lin er) fid = Some f" if "funcId2Decl s fid = None"
  proof -
    have "funcId2Decl s' fid = Some f"
      using that assms(2)
      by (simp add: s'_def walkFunction_funcId2Decl registerFunctionID_def)
    then show ?thesis
      unfolding w by (rule foldl_walkFunction_keeps)
  qed
  show ?thesis
    using a b unfolding s_def by blast
qed

text \<open>
  C3. Take any function \<open>f\<close> of the hierarchy that declares a function id, whatever its role
  (nothing is assumed about the constructor, receive, fallback and onTickTock flags), and
  the state of the walk when it reaches \<open>f\<close>. If the id is registered to a different function
  \<open>f2\<close> and neither function is among the base functions of the other, the diagnostic "Two
  functions have the same functionID" at the location of \<open>f\<close>, with the location of \<open>f2\<close> as
  the secondary location, is among those that \<^verbatim>\<open>checkOverrideAndOverload\<close> appends. If the
  id is not registered, it is registered to \<open>f\<close> from then on to the end of the walk.
\<close>

theorem functionID_registration:
  assumes "hierarchyFunctions lin = pre @ f # post"
    and "functionID (ast f) = Some fid"
  shows "(\<forall>f2. funcId2Decl (foldl (walkFunction ast g) (initialState er) pre) fid = Some f2 \<and>
            f2 \<noteq> f \<and> f2 \<notin> g f \<and> f \<notin> g f2 \<longrightarrow>
            \<lparr>errorId = 228, errorLocation = location (ast f),
              secondary = [(''Declaration of the function with the same function ID: '',
                           location (ast f2))],
              message = ''Two functions have the same functionID.''\<rparr>
              \<in> set (emitted er (checkOverrideAndOverload ast g lin er)))
       \<and> (funcId2Decl (foldl (walkFunction ast g) (initialState er) pre) fid = None \<longrightarrow>
            funcId2Decl (walk ast g lin er) fid = Some f)"
  using assms functionID_registration_walk [where lin = lin and pre = pre and f = f
      and post = post and ast = ast and fid = fid and g = g and er = er]
  by (simp add: sameFunctionID_error_def mkTypeError_def)

text \<open>
  Evaluation of the examples: the definitions of the walk and of the example hierarchies.
\<close>

lemmas walk_defs = checkOverrideAndOverload_def walk_def walkContract_def walkFunction_def
     registerFunctionID_def Let_def walkBase_def initialState_def
     checkOverrideBase_def functionID_presenceMismatch_def typeError_def checkOverload_def
     overloadOuter_def overloadInner_def isPublic_def insort_insert_key_def
lemmas pair_defs = pairContracts_def pairAST_def baseDecl_def derivedDecl_def plainFunction_def
     pairBaseFunctions_def noBaseFunctions_def

theorem functionID_registration_witness:
  "hierarchyFunctions pairContracts = [1] @ 2 # [] \<and>
   functionID (sameIdAST 2) = Some 7 \<and>
   funcId2Decl (foldl (walkFunction sameIdAST noBaseFunctions) (initialState []) [1]) 7 = Some 1 \<and>
   \<lparr>errorId = 228, errorLocation = SourceLocation 200 220 ''a.sol'',
     secondary = [(''Declaration of the function with the same function ID: '',
                  SourceLocation 100 120 ''a.sol'')],
     message = ''Two functions have the same functionID.''\<rparr>
     \<in> set (emitted [] (checkOverrideAndOverload sameIdAST noBaseFunctions pairContracts [])) \<and>
   funcId2Decl (foldl (walkFunction sameIdAST noBaseFunctions) (initialState []) []) 7 = None \<and>
   funcId2Decl (walk sameIdAST noBaseFunctions pairContracts []) 7 = Some 1"
proof -
  have h: "hierarchyFunctions pairContracts = [1] @ 2 # []"
      "hierarchyFunctions pairContracts = [] @ 1 # [2]"
    by (simp_all add: hierarchyFunctions_def pairContracts_def)
  have i: "functionID (sameIdAST 2) = Some 7" "functionID (sameIdAST 1) = Some 7"
    by (simp_all add: sameIdAST_def pair_defs)
  have r: "funcId2Decl (foldl (walkFunction sameIdAST noBaseFunctions) (initialState []) [1]) 7
      = Some 1"
    by (simp add: sameIdAST_def walk_defs pair_defs)
  have n: "funcId2Decl (foldl (walkFunction sameIdAST noBaseFunctions) (initialState []) []) 7
      = None"
    by (simp add: initialState_def)
  have l: "location (sameIdAST 2) = SourceLocation 200 220 ''a.sol''"
      "location (sameIdAST (Suc 0)) = SourceLocation 100 120 ''a.sol''"
    by (simp_all add: sameIdAST_def pair_defs)
  show ?thesis
    using functionID_registration [where lin = pairContracts and pre = "[1]" and f = 2
            and post = "[]" and ast = sameIdAST and fid = 7 and g = noBaseFunctions and er = "[]"]
          functionID_registration [where lin = pairContracts and pre = "[]" and f = 1
            and post = "[2]" and ast = sameIdAST and fid = 7 and g = noBaseFunctions and er = "[]"]
          h i r n
    by (simp add: noBaseFunctions_def l)
qed

section \<open>Override consistency\<close>

lemma checkOverrideBase_msgFlag_count:
  "count_list (checkOverrideBase ast f base []) (msgFlagMismatch_error ast f base) =
     (if internalMsg (ast f) \<noteq> internalMsg (ast base) \<or>
         externalMsg (ast f) \<noteq> externalMsg (ast base) then 1 else 0)"
  by (simp add: checkOverrideBase_def typeError_def Let_def msgFlagMismatch_error_def
        mkTypeError_def presenceMismatch_message_def valueMismatch_message_def
        responsibleMismatch_message_def msgFlagMismatch_message_def)

text \<open>
  C1, as the code has it. For an override and one of its base functions, the internal-message
  flags and the external-message flags are compared by one test: the checks of the pair
  append the diagnostic "Both override and base functions should be marked as internalMsg or
  externalMsg" exactly once when at least one of the two flags differs (also when both
  differ), and not at all when both agree.
\<close>

theorem msgFlags_one_combined_check:
  "count_list (emitted er (checkOverrideBase ast f base er))
     \<lparr>errorId = 228, errorLocation = location (ast f),
       secondary = [(''Declaration of the base function: '', location (ast base))],
       message = ''Both override and base functions should be marked as internalMsg or externalMsg.''\<rparr> =
     (if internalMsg (ast f) \<noteq> internalMsg (ast base) \<or>
         externalMsg (ast f) \<noteq> externalMsg (ast base) then 1 else 0)"
  using checkOverrideBase_msgFlag_count [of ast f base]
        checkOverrideBase_append [of ast f base er]
  by (simp add: msgFlagMismatch_error_def mkTypeError_def baseLabel_def
        msgFlagMismatch_message_def)

theorem msgFlags_one_combined_check_witness:
  "count_list (emitted [] (checkOverrideBase msgFlagAST 2 1 []))
     \<lparr>errorId = 228, errorLocation = SourceLocation 200 220 ''a.sol'',
       secondary = [(''Declaration of the base function: '', SourceLocation 100 120 ''a.sol'')],
       message = ''Both override and base functions should be marked as internalMsg or externalMsg.''\<rparr> = 1"
proof -
  have l: "location (msgFlagAST 2) = SourceLocation 200 220 ''a.sol''"
      "location (msgFlagAST (Suc 0)) = SourceLocation 100 120 ''a.sol''"
    by (simp_all add: msgFlagAST_def pair_defs)
  have m: "internalMsg (msgFlagAST 2) \<noteq> internalMsg (msgFlagAST 1)"
    by (simp add: msgFlagAST_def pair_defs)
  show ?thesis
    using msgFlags_one_combined_check [of "[]" msgFlagAST 2 1] m
    by (simp add: l)
qed

text \<open>
  Against C1 as stated: a base function marked \<^verbatim>\<open>internalMsg\<close> and an override marked
  \<^verbatim>\<open>externalMsg\<close> differ in both flags, and the whole check of the derived contract appends
  one diagnostic, not two.
\<close>

theorem msgFlags_two_diagnostics_counterexample:
  "internalMsg (msgFlagAST 2) \<noteq> internalMsg (msgFlagAST 1) \<and>
   externalMsg (msgFlagAST 2) \<noteq> externalMsg (msgFlagAST 1) \<and>
   checkOverrideAndOverload msgFlagAST pairBaseFunctions pairContracts [] =
     [\<lparr>errorId = 228, errorLocation = SourceLocation 200 220 ''a.sol'',
       secondary = [(''Declaration of the base function: '', SourceLocation 100 120 ''a.sol'')],
       message = ''Both override and base functions should be marked as internalMsg or externalMsg.''\<rparr>]"
  by (simp add: msgFlagAST_def walk_defs pair_defs mkTypeError_def baseLabel_def
        msgFlagMismatch_message_def)

text \<open>
  The test of line 78 is repeated at line 100, so a pair where exactly one function declares
  an id gets the diagnostic of the presence mismatch twice.
\<close>

lemma checkOverrideBase_presence_count:
  "count_list (checkOverrideBase ast f base []) (presenceMismatch_error ast f base) =
     (if functionID_presenceMismatch (ast f) (ast base) then 2 else 0)"
  by (simp add: checkOverrideBase_def typeError_def Let_def presenceMismatch_error_def
        mkTypeError_def presenceMismatch_message_def valueMismatch_message_def
        responsibleMismatch_message_def msgFlagMismatch_message_def)

text \<open>
  C2, at a concrete input. The base function declares the function id 5 and the override
  declares none: the check of the derived contract appends the diagnostic of the presence
  mismatch two times.
\<close>

theorem presence_mismatch_reported_twice:
  "checkOverrideAndOverload presenceAST pairBaseFunctions pairContracts [] =
     [\<lparr>errorId = 228, errorLocation = SourceLocation 200 220 ''a.sol'',
       secondary = [(''Declaration of the base function: '', SourceLocation 100 120 ''a.sol'')],
       message = ''Both override and base functions should have functionID if it is defined for one of them.''\<rparr>,
      \<lparr>errorId = 228, errorLocation = SourceLocation 200 220 ''a.sol'',
       secondary = [(''Declaration of the base function: '', SourceLocation 100 120 ''a.sol'')],
       message = ''Both override and base functions should have functionID if it is defined for one of them.''\<rparr>]"
  by (simp add: presenceAST_def walk_defs pair_defs mkTypeError_def baseLabel_def
        presenceMismatch_message_def)

section \<open>Overloading of public functions\<close>

lemma isOverloadDiagnosticOf_alt:
  "isOverloadDiagnosticOf ast f ff e =
     (e = overload_error ast f ff \<or> e = overload_error ast ff f)"
  by (simp add: isOverloadDiagnosticOf_def overload_error_def mkTypeError_def
        overloading_message_def)

lemma overload_error_eq:
  assumes "inj_on (\<lambda>x. location (ast x)) S" "a \<in> S" "b \<in> S" "f \<in> S" "ff \<in> S"
  shows "overload_error ast f ff = overload_error ast a b \<longleftrightarrow> f = a \<and> ff = b"
  using assms by (auto simp add: overload_error_def mkTypeError_def inj_on_def)

lemma isOverloadDiagnosticOf_new:
  assumes "inj_on (\<lambda>x. location (ast x)) S" "a \<in> S" "b \<in> S" "f \<in> S" "ff \<in> S"
  shows "isOverloadDiagnosticOf ast a b (overload_error ast f ff) \<longleftrightarrow>
           (f = a \<and> ff = b) \<or> (f = b \<and> ff = a)"
  using overload_error_eq [OF assms(1) assms(2) assms(3) assms(4) assms(5)]
        overload_error_eq [OF assms(1) assms(3) assms(2) assms(4) assms(5)]
  by (auto simp add: isOverloadDiagnosticOf_alt)

lemma overloadInner_invariant:
  assumes inj: "inj_on (\<lambda>x. location (ast x)) S"
    and f: "f \<in> S" and ff: "ff \<in> S"
    and inv: "overloadInvariant ast S er0 st"
  shows "overloadInvariant ast S er0 (overloadInner ast ov f st ff)"
proof (cases "isPublic (ast ff) \<and> ff \<notin> ov \<and> f \<noteq> ff \<and> name (ast f) = name (ast ff) \<and> (f, ff) \<notin> snd st")
  case False
  then have "overloadInner ast ov f st ff = st"
    by (auto simp add: overloadInner_def)
  then show ?thesis using inv by simp
next
  case True
  then have step: "overloadInner ast ov f st ff =
      (fst st @ [overload_error ast f ff], insert (ff, f) (insert (f, ff) (snd st)))"
    by (simp add: overloadInner_def)
  have sym: "(x, y) \<in> snd st \<Longrightarrow> (y, x) \<in> snd st \<and> x \<in> S \<and> y \<in> S \<and> x \<noteq> y" for x y
    using inv by (simp add: overloadInvariant_def)
  have cnt: "a \<in> S \<Longrightarrow> b \<in> S \<Longrightarrow> a \<noteq> b \<Longrightarrow>
         length (filter (isOverloadDiagnosticOf ast a b) (fst st)) =
         length (filter (isOverloadDiagnosticOf ast a b) er0) + (if (a, b) \<in> snd st then 1 else 0)" for a b
    using inv by (simp add: overloadInvariant_def)
  have nff: "(ff, f) \<notin> snd st"
    using True sym [of ff f] by blast
  have nf: "(f, ff) \<notin> snd st" and neq: "f \<noteq> ff"
    using True by simp_all
  have 1: "(x, y) \<in> insert (ff, f) (insert (f, ff) (snd st)) \<longrightarrow>
      (y, x) \<in> insert (ff, f) (insert (f, ff) (snd st)) \<and> x \<in> S \<and> y \<in> S \<and> x \<noteq> y" for x y
    using sym [of x y] f ff neq by auto
  have 2: "length (filter (isOverloadDiagnosticOf ast a b) (fst st @ [overload_error ast f ff])) =
         length (filter (isOverloadDiagnosticOf ast a b) er0) +
         (if (a, b) \<in> insert (ff, f) (insert (f, ff) (snd st)) then 1 else 0)"
    if "a \<in> S" "b \<in> S" "a \<noteq> b" for a b
  proof (cases "(f = a \<and> ff = b) \<or> (f = b \<and> ff = a)")
    case True
    then have "(a, b) \<notin> snd st"
      using nf nff by auto
    then show ?thesis
      using True cnt [OF that] isOverloadDiagnosticOf_new [OF inj that(1) that(2) f ff]
      by auto
  next
    case False
    then show ?thesis
      using cnt [OF that] isOverloadDiagnosticOf_new [OF inj that(1) that(2) f ff]
      by auto
  qed
  show ?thesis
    unfolding step overloadInvariant_def using 1 2 by simp
qed

lemma foldl_overloadInner_invariant:
  assumes "inj_on (\<lambda>x. location (ast x)) S" "f \<in> S" "set gs \<subseteq> S"
    and "overloadInvariant ast S er0 st"
  shows "overloadInvariant ast S er0 (foldl (overloadInner ast ov f) st gs)"
  using assms(3,4)
  by (induction gs arbitrary: st) (simp_all add: overloadInner_invariant [OF assms(1) assms(2)])

lemma overloadOuter_invariant:
  assumes "inj_on (\<lambda>x. location (ast x)) S" "f \<in> S" "set gs \<subseteq> S"
    and "overloadInvariant ast S er0 st"
  shows "overloadInvariant ast S er0 (overloadOuter ast ov gs st f)"
  using assms foldl_overloadInner_invariant [OF assms]
  by (simp add: overloadOuter_def)

lemma foldl_overloadOuter_invariant:
  assumes "inj_on (\<lambda>x. location (ast x)) S" "set gs \<subseteq> S"
    and "set fs \<subseteq> S" "overloadInvariant ast S er0 st"
  shows "overloadInvariant ast S er0 (foldl (overloadOuter ast ov gs) st fs)"
  using assms(3,4)
  by (induction fs arbitrary: st) (simp_all add: overloadOuter_invariant [OF assms(1) _ assms(2)])

lemma overloadInner_mono: "snd st \<subseteq> snd (overloadInner ast ov f st ff)"
  by (auto simp add: overloadInner_def)

lemma foldl_overloadInner_mono: "snd st \<subseteq> snd (foldl (overloadInner ast ov f) st gs)"
proof (induction gs arbitrary: st)
  case Nil
  then show ?case by simp
next
  case (Cons a gs)
  have "snd st \<subseteq> snd (overloadInner ast ov f st a)"
    by (rule overloadInner_mono)
  also have "\<dots> \<subseteq> snd (foldl (overloadInner ast ov f) (overloadInner ast ov f st a) gs)"
    by (rule Cons.IH)
  finally show ?case by simp
qed

lemma overloadOuter_mono: "snd st \<subseteq> snd (overloadOuter ast ov gs st f)"
  using foldl_overloadInner_mono by (simp add: overloadOuter_def)

lemma foldl_overloadOuter_mono: "snd st \<subseteq> snd (foldl (overloadOuter ast ov gs) st fs)"
proof (induction fs arbitrary: st)
  case Nil
  then show ?case by simp
next
  case (Cons a fs)
  have "snd st \<subseteq> snd (overloadOuter ast ov gs st a)"
    by (rule overloadOuter_mono)
  also have "\<dots> \<subseteq> snd (foldl (overloadOuter ast ov gs) (overloadOuter ast ov gs st a) fs)"
    by (rule Cons.IH)
  finally show ?case by simp
qed

lemma overloadInner_hits:
  assumes "isPublic (ast ff)" "ff \<notin> ov" "f \<noteq> ff" "name (ast f) = name (ast ff)"
  shows "(f, ff) \<in> snd (overloadInner ast ov f st ff)"
  using assms by (simp add: overloadInner_def)

lemma foldl_overloadInner_hits:
  assumes "isPublic (ast ff)" "ff \<notin> ov" "f \<noteq> ff" "name (ast f) = name (ast ff)"
    and "ff \<in> set gs"
  shows "(f, ff) \<in> snd (foldl (overloadInner ast ov f) st gs)"
proof -
  obtain pre post where gs: "gs = pre @ ff # post"
    using assms(5) by (auto dest: split_list)
  define s1 where "s1 = foldl (overloadInner ast ov f) st pre"
  have "(f, ff) \<in> snd (overloadInner ast ov f s1 ff)"
    using assms(1-4) by (rule overloadInner_hits)
  then show ?thesis
    using foldl_overloadInner_mono [of "overloadInner ast ov f s1 ff" ast ov f post]
    by (auto simp add: gs s1_def)
qed

lemma foldl_overloadOuter_hits:
  assumes "isPublic (ast ff)" "ff \<notin> ov" "f \<noteq> ff" "name (ast f) = name (ast ff)"
    and "ff \<in> set gs" and "isPublic (ast f)" "f \<notin> ov" "f \<in> set fs"
  shows "(f, ff) \<in> snd (foldl (overloadOuter ast ov gs) st fs)"
proof -
  obtain pre post where fs: "fs = pre @ f # post"
    using assms(8) by (auto dest: split_list)
  define s1 where "s1 = foldl (overloadOuter ast ov gs) st pre"
  have "(f, ff) \<in> snd (overloadOuter ast ov gs s1 f)"
    using assms(6,7) foldl_overloadInner_hits [OF assms(1-5)]
    by (simp add: overloadOuter_def)
  then show ?thesis
    using foldl_overloadOuter_mono [of "overloadOuter ast ov gs s1 f" ast ov gs post]
    by (auto simp add: fs s1_def)
qed

lemma checkOverload_count:
  assumes inj: "inj_on (\<lambda>x. location (ast x)) (set fs)"
    and "f \<in> set fs" "ff \<in> set fs" "f \<noteq> ff"
    and "isPublic (ast f)" "isPublic (ast ff)" "name (ast f) = name (ast ff)"
    and "f \<notin> ov" "ff \<notin> ov"
  shows "length (filter (isOverloadDiagnosticOf ast f ff) (checkOverload ast ov fs er)) =
         length (filter (isOverloadDiagnosticOf ast f ff) er) + 1"
proof -
  define final where "final = foldl (overloadOuter ast ov fs) (er, {}) fs"
  have "overloadInvariant ast (set fs) er (er, {})"
    by (simp add: overloadInvariant_def)
  then have "overloadInvariant ast (set fs) er final"
    unfolding final_def
    by (intro foldl_overloadOuter_invariant [OF inj]) simp_all
  moreover have "(f, ff) \<in> snd final"
    unfolding final_def using assms by (intro foldl_overloadOuter_hits) simp_all
  ultimately show ?thesis
    using assms(2,3,4) by (simp add: overloadInvariant_def checkOverload_def final_def)
qed

lemma registerFunctionID_functionsSet:
  "functionsSet (registerFunctionID ast g s f) = functionsSet s"
  by (simp add: registerFunctionID_def Let_def split: option.splits)

lemma foldl_walkBase_functionsSet:
  "functionsSet (foldl (walkBase ast f) s bs) = functionsSet s"
  by (induction bs arbitrary: s) (simp_all add: walkBase_def)

lemma walkFunction_functionsSet:
  "set (functionsSet (walkFunction ast g s f)) =
     set (functionsSet s) \<union> (if hasSpecialRole (ast f) then {} else {f})"
  by (simp add: walkFunction_def Let_def hasSpecialRole_def registerFunctionID_functionsSet
        foldl_walkBase_functionsSet set_insort_insert)

lemma foldl_walkFunction_functionsSet:
  "set (functionsSet (foldl (walkFunction ast g) s fs)) =
     set (functionsSet s) \<union> {x \<in> set fs. \<not> hasSpecialRole (ast x)}"
  by (induction fs arbitrary: s) (auto simp add: walkFunction_functionsSet)

lemma walk_functionsSet:
  "set (functionsSet (walk ast g lin er)) =
     {x \<in> set (hierarchyFunctions lin). \<not> hasSpecialRole (ast x)}"
  by (simp add: walk_hierarchyFunctions foldl_walkFunction_functionsSet initialState_def)

lemma isOverloadDiagnosticOf_message:
  "isOverloadDiagnosticOf ast a b e \<Longrightarrow> message e = overloading_message"
  by (auto simp add: isOverloadDiagnosticOf_alt overload_error_def)

text \<open>
  C4, as the code has it. Take two different functions of the hierarchy that are not
  constructor, receive, fallback or onTickTock functions (the walk does not collect those),
  both public, with the same name, neither in the set of overridden or overriding functions
  after the walk. Then exactly one of the diagnostics that \<^verbatim>\<open>checkOverrideAndOverload\<close>
  appends is the overload diagnostic of the pair, in one order or the other. The functions of
  the hierarchy are assumed to have different locations, which is how a diagnostic names a
  function. The addresses, and with them the order of the iteration, are arbitrary.
\<close>

theorem overload_reported_once:
  assumes "f \<in> set (hierarchyFunctions lin)" and "ff \<in> set (hierarchyFunctions lin)"
    and "f \<noteq> ff"
    and "\<not> hasSpecialRole (ast f)" and "\<not> hasSpecialRole (ast ff)"
    and "isPublic (ast f)" and "isPublic (ast ff)"
    and "name (ast f) = name (ast ff)"
    and "f \<notin> overridedFunctions (walk ast g lin er)"
    and "ff \<notin> overridedFunctions (walk ast g lin er)"
    and "inj_on (\<lambda>x. location (ast x)) (set (hierarchyFunctions lin))"
  shows "length (filter (isOverloadDiagnosticOf ast f ff)
           (emitted er (checkOverrideAndOverload ast g lin er))) = 1"
proof -
  define s where "s = walk ast g lin er"
  obtain xs ys where e: "errors s = er @ xs"
      "\<forall>e \<in> set xs. message e \<noteq> overloading_message"
      "checkOverload ast (overridedFunctions s) (functionsSet s) (er @ xs) = er @ xs @ ys"
      "checkOverrideAndOverload ast g lin er = er @ xs @ ys"
    unfolding s_def using checkOverrideAndOverload_appends [of ast g lin er] by blast
  have sub: "set (functionsSet s) \<subseteq> set (hierarchyFunctions lin)"
    by (auto simp add: s_def walk_functionsSet)
  have inj: "inj_on (\<lambda>x. location (ast x)) (set (functionsSet s))"
    using assms(11) sub by (rule inj_on_subset)
  have mem: "f \<in> set (functionsSet s)" "ff \<in> set (functionsSet s)"
    using assms(1,2,4,5) by (simp_all add: s_def walk_functionsSet)
  have "length (filter (isOverloadDiagnosticOf ast f ff)
          (checkOverload ast (overridedFunctions s) (functionsSet s) (er @ xs))) =
        length (filter (isOverloadDiagnosticOf ast f ff) (er @ xs)) + 1"
    using inj mem assms(3) assms(6) assms(7) assms(8) assms(9,10) [folded s_def]
    by (rule checkOverload_count)
  then have c: "length (filter (isOverloadDiagnosticOf ast f ff) ys) = 1"
    by (simp add: e(3))
  have "filter (isOverloadDiagnosticOf ast f ff) xs = []"
    using e(2) isOverloadDiagnosticOf_message by (fastforce simp add: filter_empty_conv)
  then show ?thesis
    using c by (simp add: e(4))
qed

theorem overload_reported_once_witness:
  "length (filter (isOverloadDiagnosticOf overloadAST 1 2)
     (emitted [] (checkOverrideAndOverload overloadAST noBaseFunctions pairContracts []))) = 1 \<and>
   length (filter (isOverloadDiagnosticOf overloadAST 2 1)
     (emitted [] (checkOverrideAndOverload overloadAST noBaseFunctions pairContracts []))) = 1"
proof -
  have h: "hierarchyFunctions pairContracts = [1, 2]"
    by (simp add: hierarchyFunctions_def pairContracts_def)
  have o: "overridedFunctions (walk overloadAST noBaseFunctions pairContracts []) = {}"
    by (simp add: overloadAST_def walk_defs pair_defs)
  have inj: "inj_on (\<lambda>x. location (overloadAST x)) (set (hierarchyFunctions pairContracts))"
    by (simp add: h overloadAST_def pairAST_def baseDecl_def derivedDecl_def plainFunction_def)
  have a: "\<not> hasSpecialRole (overloadAST 1)" "\<not> hasSpecialRole (overloadAST 2)"
      "isPublic (overloadAST 1)" "isPublic (overloadAST 2)"
      "name (overloadAST 1) = name (overloadAST 2)"
    by (simp_all add: overloadAST_def pair_defs hasSpecialRole_def isPublic_def)
  have m: "(1::nat) \<in> set (hierarchyFunctions pairContracts)"
      "(2::nat) \<in> set (hierarchyFunctions pairContracts)"
    by (simp_all add: h)
  have "length (filter (isOverloadDiagnosticOf overloadAST 1 2)
     (emitted [] (checkOverrideAndOverload overloadAST noBaseFunctions pairContracts []))) = 1"
    using overload_reported_once [of 1 pairContracts 2 overloadAST noBaseFunctions "[]"]
      m a o inj by simp
  moreover have "length (filter (isOverloadDiagnosticOf overloadAST 2 1)
     (emitted [] (checkOverrideAndOverload overloadAST noBaseFunctions pairContracts []))) = 1"
    using overload_reported_once [of 2 pairContracts 1 overloadAST noBaseFunctions "[]"]
      m a o inj by simp
  ultimately show ?thesis by simp
qed

text \<open>
  Against C4 as stated: the constructors of a contract and of its base contract are two
  different public functions with the same name, neither overrides the other, and the check
  appends nothing.
\<close>

theorem constructors_overload_counterexample:
  "isPublic (constructorsAST 1) \<and> isPublic (constructorsAST 2) \<and>
   name (constructorsAST 1) = name (constructorsAST 2) \<and>
   overridedFunctions (walk constructorsAST noBaseFunctions pairContracts []) = {} \<and>
   checkOverrideAndOverload constructorsAST noBaseFunctions pairContracts [] = []"
  by (simp add: constructorsAST_def walk_defs pair_defs)

end
